theory Spec2Isabelle
  imports Main "HOL-Library.AList" "HOL-Library.Char_ord"
begin

section \<open>Strings of the source language\<close>

text \<open>
  The functions embedded here turn a podspec into a project specification for
  \<open>xcodegen\<close>, merge Xcode configurations, derive bundle identifiers and run the
  generator; two tasks of the publishing pipeline prebuild packages and clean up after
  them.

  A JavaScript string is modelled as a \<^typ>\<open>string\<close>, one \<^typ>\<open>char\<close> for each code
  unit, so the strings of the model are those whose code units are below 256. The
  character classes are those of a regular expression without the \<open>u\<close> and \<open>i\<close>
  flags: \<open>\d\<close> is \<open>[0-9]\<close>, \<open>\w\<close> is \<open>[A-Za-z0-9_]\<close>, \<open>\s\<close> is white space.
\<close>

definition is_upper :: "char \<Rightarrow> bool" where
  "is_upper c = (CHR ''A'' \<le> c \<and> c \<le> CHR ''Z'')"

definition is_lower :: "char \<Rightarrow> bool" where
  "is_lower c = (CHR ''a'' \<le> c \<and> c \<le> CHR ''z'')"

definition is_digit :: "char \<Rightarrow> bool" where
  "is_digit c = (CHR ''0'' \<le> c \<and> c \<le> CHR ''9'')"

definition is_word :: "char \<Rightarrow> bool" where
  "is_word c = (is_upper c \<or> is_lower c \<or> is_digit c \<or> c = CHR ''_'')"

definition is_space :: "char \<Rightarrow> bool" where
  "is_space c = (c \<in> set [CHR 0x09, CHR 0x0A, CHR 0x0B, CHR 0x0C, CHR 0x0D, CHR 0x20, CHR 0xA0])"

definition is_dot :: "char \<Rightarrow> bool" where
  "is_dot c = (c = CHR ''.'')"

text \<open>\<open>String.prototype.toLowerCase\<close>, on the letters \<open>A\<close> to \<open>Z\<close> (the only ones it
  is applied to in this program).\<close>

definition lower_char :: "char \<Rightarrow> char" where
  "lower_char c = (if is_upper c then char_of (of_char c + (32::nat)) else c)"

definition toLowerCase :: "string \<Rightarrow> string" where
  "toLowerCase s = map lower_char s"

text \<open>\<open>s.startsWith(t)\<close> and \<open>s.includes(t)\<close>.\<close>

definition startsWith :: "string \<Rightarrow> string \<Rightarrow> bool" where
  "startsWith s t = (take (length t) s = t)"

fun str_includes :: "string \<Rightarrow> string \<Rightarrow> bool" where
  "str_includes [] t = (t = [])"
| "str_includes (c # cs) t = (startsWith (c # cs) t \<or> str_includes cs t)"

text \<open>\<open>Array.prototype.join\<close> and \<open>String.prototype.trim\<close>.\<close>

fun join :: "string \<Rightarrow> string list \<Rightarrow> string" where
  "join sep [] = []"
| "join sep [x] = x"
| "join sep (x # y # ys) = x @ sep @ join sep (y # ys)"

definition trim :: "string \<Rightarrow> string" where
  "trim s = rev (dropWhile is_space (rev (dropWhile is_space s)))"

text \<open>The decimal text of a non-negative integer, as string concatenation produces it.\<close>

definition digit_char :: "nat \<Rightarrow> char" where
  "digit_char d = char_of (of_char CHR ''0'' + d)"

fun show_nat :: "nat \<Rightarrow> string" where
  "show_nat n = (if n < 10 then [digit_char n] else show_nat (n div 10) @ [digit_char (n mod 10)])"

declare show_nat.simps [simp del]

section \<open>Regular expressions\<close>

text \<open>
  The regular expressions of this program are sequences of the following pieces: the
  assertions \<open>^\<close> and \<open>$\<close> (no \<open>m\<close> flag: start and end of the whole input), one
  character of a class, and a class under the greedy quantifiers \<open>*\<close> and \<open>+\<close>. A group
  that is an alternative of single characters, such as \<open>(\_|[^\w\d\.])\<close>, is the class
  of the characters either side accepts.
\<close>

datatype item = Bol | Eol | One "char \<Rightarrow> bool" | Star "char \<Rightarrow> bool" | Plus "char \<Rightarrow> bool"

text \<open>Backtracking over the number of repetitions of a greedy quantifier: the largest
  count first, down to the least count allowed.\<close>

fun try_counts :: "(nat \<Rightarrow> 'a option) \<Rightarrow> nat \<Rightarrow> nat \<Rightarrow> 'a option" where
  "try_counts g lo 0 = (if lo = 0 then g 0 else None)"
| "try_counts g lo (Suc k) =
     (if Suc k < lo then None
      else (case g (Suc k) of Some r \<Rightarrow> Some r | None \<Rightarrow> try_counts g lo k))"

text \<open>
  A match attempt at the current position: \<open>at_start\<close> says that the position is index 0
  of the input, \<open>s\<close> is the input from the position on. The result is what each piece
  matched, in order; their concatenation is the matched text.
\<close>

primrec match_here :: "item list \<Rightarrow> bool \<Rightarrow> string \<Rightarrow> string list option" where
  "match_here [] at_start s = Some []"
| "match_here (i # rx) at_start s =
     (case i of
        Bol \<Rightarrow> (if at_start then map_option (Cons []) (match_here rx at_start s) else None)
      | Eol \<Rightarrow> (if s = [] then map_option (Cons []) (match_here rx at_start s) else None)
      | One p \<Rightarrow>
          (case s of
             [] \<Rightarrow> None
           | c # cs \<Rightarrow> if p c then map_option (Cons [c]) (match_here rx False cs) else None)
      | Star p \<Rightarrow>
          try_counts
            (\<lambda>k. map_option (Cons (take k s)) (match_here rx (at_start \<and> k = 0) (drop k s)))
            0 (length (takeWhile p s))
      | Plus p \<Rightarrow>
          try_counts
            (\<lambda>k. map_option (Cons (take k s)) (match_here rx (at_start \<and> k = 0) (drop k s)))
            1 (length (takeWhile p s)))"

text \<open>
  \<open>s.replace(rx, f)\<close> for a regular expression without the \<open>g\<close> flag: the first
  position where it matches, from the left; the match is replaced by \<open>f\<close> of the pieces,
  the rest is kept. A replacement that the source gives as a string is the constant
  function (none of its replacement strings contains a \<open>$\<close> pattern).
\<close>

fun replace_first :: "item list \<Rightarrow> (string list \<Rightarrow> string) \<Rightarrow> bool \<Rightarrow> string \<Rightarrow> string" where
  "replace_first rx f at_start [] =
     (case match_here rx at_start [] of Some gs \<Rightarrow> f gs | None \<Rightarrow> [])"
| "replace_first rx f at_start (c # cs) =
     (case match_here rx at_start (c # cs) of
        Some gs \<Rightarrow> f gs @ drop (length (concat gs)) (c # cs)
      | None \<Rightarrow> c # replace_first rx f False cs)"

text \<open>
  \<open>s.replace(rx, f)\<close> with the \<open>g\<close> flag: every match from left to right, the next
  search starting where the last match ended, or one character further when the match
  was empty.
\<close>

function replace_global :: "item list \<Rightarrow> (string list \<Rightarrow> string) \<Rightarrow> bool \<Rightarrow> string \<Rightarrow> string" where
  "replace_global rx f at_start [] =
     (case match_here rx at_start [] of Some gs \<Rightarrow> f gs | None \<Rightarrow> [])"
| "replace_global rx f at_start (c # cs) =
     (case match_here rx at_start (c # cs) of
        None \<Rightarrow> c # replace_global rx f False cs
      | Some gs \<Rightarrow>
          (if length (concat gs) = 0 then f gs @ c # replace_global rx f False cs
           else f gs @ replace_global rx f False (drop (length (concat gs)) (c # cs))))"
  by pat_completeness auto
termination
  by (relation "measure (\<lambda>(rx, f, at_start, s). length s)") auto

section \<open>Bundle identifiers\<close>

text \<open>\<open>/^UM/\<close>, \<open>/^EX/\<close>, \<open>/(\_|[^\w\d\.])+/g\<close> and \<open>/\.*([A-Z]+)/g\<close>.\<close>

definition rx_UM :: "item list" where
  "rx_UM = [Bol, One (\<lambda>c. c = CHR ''U''), One (\<lambda>c. c = CHR ''M'')]"

definition rx_EX :: "item list" where
  "rx_EX = [Bol, One (\<lambda>c. c = CHR ''E''), One (\<lambda>c. c = CHR ''X'')]"

definition is_separator :: "char \<Rightarrow> bool" where
  "is_separator c = (c = CHR ''_'' \<or> \<not> (is_word c \<or> is_digit c \<or> c = CHR ''.''))"

definition rx_separators :: "item list" where
  "rx_separators = [Plus is_separator]"

definition rx_upper_run :: "item list" where
  "rx_upper_run = [Star is_dot, Plus is_upper]"

definition podNameToBundleId :: "string \<Rightarrow> string" where
  "podNameToBundleId podName =
     replace_global rx_upper_run (\<lambda>gs. CHR ''.'' # toLowerCase (gs ! 1)) True
       (replace_global rx_separators (\<lambda>gs. ''.'') True
         (replace_first rx_EX (\<lambda>gs. ''expo'') True
           (replace_first rx_UM (\<lambda>gs. ''unimodules'') True podName)))"

subsection \<open>The rewriting, stated on runs of characters\<close>

text \<open>
  The same rewriting without regular expressions, to compare \<open>podNameToBundleId\<close> with:
  a prefix is replaced; every maximal run of characters of a class becomes one dot;
  every maximal run of upper-case letters, with the dots directly before it, becomes one
  dot and the run in lower case.
\<close>

definition replace_prefix :: "string \<Rightarrow> string \<Rightarrow> string \<Rightarrow> string" where
  "replace_prefix p r s = (if startsWith s p then r @ drop (length p) s else s)"

function collapse_runs :: "(char \<Rightarrow> bool) \<Rightarrow> string \<Rightarrow> string" where
  "collapse_runs p [] = []"
| "collapse_runs p (c # cs) =
     (if p c then CHR ''.'' # collapse_runs p (dropWhile p cs) else c # collapse_runs p cs)"
  by pat_completeness auto
termination
  by (relation "measure (\<lambda>(p, s). length s)") (auto simp: le_imp_less_Suc length_dropWhile_le)

function dot_upper_runs :: "string \<Rightarrow> string" where
  "dot_upper_runs [] = []"
| "dot_upper_runs (c # cs) =
     (if takeWhile is_upper (dropWhile is_dot (c # cs)) = [] then c # dot_upper_runs cs
      else CHR ''.'' # toLowerCase (takeWhile is_upper (dropWhile is_dot (c # cs)))
             @ dot_upper_runs (dropWhile is_upper (dropWhile is_dot (c # cs))))"
  by pat_completeness auto
termination
proof (relation "measure length")
  fix c cs
  assume "takeWhile is_upper (dropWhile is_dot (c # cs)) \<noteq> []"
  then have "length (dropWhile is_upper (dropWhile is_dot (c # cs)))
               < length (dropWhile is_dot (c # cs))"
    by (cases "dropWhile is_dot (c # cs)")
       (auto simp: le_imp_less_Suc length_dropWhile_le split: if_splits)
  also have "\<dots> \<le> length (c # cs)"
    by (rule length_dropWhile_le)
  finally show "(dropWhile is_upper (dropWhile is_dot (c # cs)), c # cs) \<in> measure length"
    by simp
qed auto

text \<open>
  The rewriting in the words of the specification, where the characters collapsed into
  dots are the underscores and all characters that are not alphanumeric.
\<close>

definition is_alnum :: "char \<Rightarrow> bool" where
  "is_alnum c = (is_upper c \<or> is_lower c \<or> is_digit c)"

definition podNameToBundleId_worded :: "string \<Rightarrow> string" where
  "podNameToBundleId_worded podName =
     dot_upper_runs (collapse_runs (\<lambda>c. c = CHR ''_'' \<or> \<not> is_alnum c)
       (replace_prefix ''EX'' ''expo'' (replace_prefix ''UM'' ''unimodules'' podName)))"

section \<open>Merging Xcode configurations\<close>

text \<open>
  A configuration value is a string, or the number that \<open>semver.major\<close> returns (which
  is why the source tests \<open>typeof prevValue === 'string'\<close>). A configuration object is
  the list of its entries in enumeration order; assigning to a key keeps the place of a
  key that is there and appends a new one.
\<close>

datatype xcvalue = Str string | Num nat

type_synonym XcodeConfig = "(string \<times> xcvalue) list"

fun js_string :: "xcvalue \<Rightarrow> string" where
  "js_string (Str s) = s"
| "js_string (Num n) = show_nat n"

text \<open>
  The regular expression literal \<open>/\\s*$\(inherited\)\s*/g\<close>, read as JavaScript reads
  it: an escaped backslash, the letter \<open>s\<close> any number of times, the end of the input,
  the text \<open>(inherited)\<close>, white space.
\<close>

definition rx_inherited :: "item list" where
  "rx_inherited =
     One (\<lambda>c. c = CHR 0x5C) # Star (\<lambda>c. c = CHR ''s'') # Eol
       # map (\<lambda>x. One (\<lambda>c. c = x)) ''(inherited)'' @ [Star is_space]"

definition mergeXcodeConfigValue :: "xcvalue option \<Rightarrow> xcvalue \<Rightarrow> xcvalue" where
  "mergeXcodeConfigValue prevValue nextValue =
     (case prevValue of
        Some (Str prev) \<Rightarrow>
          if prev \<noteq> [] \<and> str_includes prev ''$(inherited)''
          then Str (''$(inherited) ''
                 @ replace_global rx_inherited (\<lambda>gs. '' '') True
                     (prev @ '' '' @ js_string nextValue))
          else nextValue
      | _ \<Rightarrow> nextValue)"

definition mergeXcodeConfigs :: "XcodeConfig list \<Rightarrow> XcodeConfig" where
  "mergeXcodeConfigs configs =
     fold (\<lambda>config result.
            fold (\<lambda>(key, val) result.
                   AList.update key (mergeXcodeConfigValue (map_of result key) val) result)
              config result)
       configs []"

subsection \<open>The inner loop of the merge\<close>


section \<open>From a podspec to a project specification\<close>

text \<open>A value that is one element, an array of elements, or absent
  (\<open>null\<close> or \<open>undefined\<close>).\<close>

datatype 'a one_or_many = Missing | Scalar 'a | Array "'a list"

fun arrayize :: "'a one_or_many \<Rightarrow> 'a list" where
  "arrayize (Array xs) = xs"
| "arrayize (Scalar x) = [x]"
| "arrayize Missing = []"

text \<open>
  The podspec, with the fields that the translation reads. An object is the list of its
  entries in the order in which \<open>Object.keys\<close> enumerates them, so its keys are distinct;
  an optional field is an \<open>option\<close>.
\<close>

record Podspec =
  name :: string
  version :: string
  platforms :: "(string \<times> string) list"
  dependencies :: "(string \<times> string list) list option"
  source_files :: "string one_or_many"
  exclude_files :: "string one_or_many"
  compiler_flags :: "string option"
  frameworks :: "string one_or_many"
  pod_target_xcconfig :: "XcodeConfig option"
  info_plist :: "XcodeConfig option"

record ProjectSpecDependency =
  framework :: "string option"
  implicit :: "bool option"
  target :: "string option"
  sdk :: "string option"
  embed :: "bool option"
  link :: "bool option"
  codeSign :: "bool option"
  removeHeaders :: "bool option"
  weak :: "bool option"

definition no_dependency :: ProjectSpecDependency where
  "no_dependency = \<lparr>framework = None, implicit = None, target = None, sdk = None,
     embed = None, link = None, codeSign = None, removeHeaders = None, weak = None\<rparr>"

text \<open>
  The project specification, with the fields that the translation sets. The settings
  objects \<open>{base: ...}\<close> are given by their \<open>base\<close>; the top-level one is an object
  literal of five keys, of which \<open>IPHONEOS_DEPLOYMENT_TARGET\<close> is \<open>undefined\<close> when the
  manifest has no \<open>ios\<close> platform.
\<close>

record ProjectSpecSource =
  source_path :: string
  source_name :: "string option"
  createIntermediateGroups :: "bool option"
  source_includes :: "string list option"
  source_excludes :: "string list option"
  compilerFlags :: "string option"

record ProjectSpecInfo =
  info_path :: string
  properties :: XcodeConfig

record ProjectSpecTarget =
  target_type :: string
  platform :: "string option list"
  sources :: "ProjectSpecSource list"
  target_dependencies :: "ProjectSpecDependency list"
  target_settings_base :: XcodeConfig
  info :: ProjectSpecInfo

record ProjectSpecOptions =
  minimumXcodeGenVersion :: string
  deploymentTarget :: "(string \<times> string) list"

record ProjectSpecBaseSettings =
  PRODUCT_BUNDLE_IDENTIFIER :: string
  IPHONEOS_DEPLOYMENT_TARGET :: "string option"
  FRAMEWORK_SEARCH_PATHS :: string
  HEADER_SEARCH_PATHS :: string
  VALIDATE_WORKSPACE_SKIPPED_SDK_FRAMEWORKS :: string

record ProjectSpec =
  spec_name :: string
  targets :: "(string \<times> ProjectSpecTarget) list"
  options :: ProjectSpecOptions
  settings_base :: ProjectSpecBaseSettings

text \<open>
  What the module takes from outside the repository and from its constants file: the
  \<open>semver\<close> package (\<open>None\<close> when \<open>semver.major\<close> throws on an invalid version),
  Node's \<open>path.join\<close> and \<open>path.dirname\<close>, and the directories \<open>IOS_DIR\<close> and
  \<open>EXPOTOOLS_DIR\<close>.
\<close>

record node_env =
  semver_major :: "string \<Rightarrow> nat option"
  path_join :: "string list \<Rightarrow> string"
  path_dirname :: "string \<Rightarrow> string"
  IOS_DIR :: string
  EXPOTOOLS_DIR :: string

datatype error = ResolverError string | InvalidVersion string | SpawnError string

definition PODS_DIR :: "node_env \<Rightarrow> string" where
  "PODS_DIR env = path_join env [IOS_DIR env, ''Pods'']"

definition PODS_PUBLIC_HEADERS_DIR :: "node_env \<Rightarrow> string" where
  "PODS_PUBLIC_HEADERS_DIR env = path_join env [PODS_DIR env, ''Headers'', ''Public'']"

definition PLATFORMS_MAPPING :: "(string \<times> string) list" where
  "PLATFORMS_MAPPING =
     [(''ios'', ''iOS''), (''osx'', ''macOS''), (''macos'', ''macOS''),
      (''tvos'', ''tvOS''), (''watchos'', ''watchOS'')]"

definition INFO_PLIST_FILENAME :: string where
  "INFO_PLIST_FILENAME = ''Info-generated.plist''"

text \<open>A property key made from the result of a table lookup: \<open>undefined\<close> becomes the
  key \<open>"undefined"\<close>. (The table is looked up as a list of its own entries; the names
  that every object inherits, such as \<open>constructor\<close>, are not platform keys.)\<close>

definition property_key :: "string option \<Rightarrow> string" where
  "property_key k = (case k of Some p \<Rightarrow> p | None \<Rightarrow> ''undefined'')"

text \<open>\<open>new Set(xs)\<close>, as the list of its elements in iteration order: the order of
  first insertion.\<close>

definition new_Set :: "'a list \<Rightarrow> 'a list" where
  "new_Set xs = fold (\<lambda>x acc. if x \<in> set acc then acc else acc @ [x]) xs []"

text \<open>\<open>xs.filter(Boolean)\<close> on the resolver's results: \<open>null\<close> is dropped.\<close>

definition filter_Boolean :: "'a option list \<Rightarrow> 'a list" where
  "filter_Boolean xs = map the (filter (\<lambda>x. x \<noteq> None) xs)"

text \<open>
  Modelled from the spec: \<open>mapAsync\<close> of the module \<open>Utils\<close>, which is not among the
  sources. It calls the function on every element and collects the results in the order
  of the elements; it fails when a call fails.
\<close>

fun mapAsync :: "'a list \<Rightarrow> ('a \<Rightarrow> error + 'b) \<Rightarrow> error + 'b list" where
  "mapAsync [] f = Inr []"
| "mapAsync (x # xs) f =
     (case f x of
        Inl e \<Rightarrow> Inl e
      | Inr y \<Rightarrow> (case mapAsync xs f of Inl e \<Rightarrow> Inl e | Inr ys \<Rightarrow> Inr (y # ys)))"

definition constructFrameworkSearchPaths :: "node_env \<Rightarrow> ProjectSpecDependency list \<Rightarrow> string" where
  "constructFrameworkSearchPaths env deps =
     (let frameworks =
            concat (map (\<lambda>dependency. case framework dependency of
                           Some f \<Rightarrow> if f \<noteq> [] then [f] else []
                         | None \<Rightarrow> []) deps)
      in trim (''$(inherited) '' @ join '' '' (map (path_dirname env) frameworks)))"

definition podsToSearchForHeaders :: "string list \<Rightarrow> string list" where
  "podsToSearchForHeaders deps =
     new_Set ([[]] @ deps @
       [''DoubleConversion'', ''React-callinvoker'', ''React-Core'', ''React-cxxreact'',
        ''React-jsi'', ''React-jsiexecutor'', ''React-jsinspector'', ''Yoga'', ''glog''])"

definition quoted_header_dir :: "node_env \<Rightarrow> string \<Rightarrow> string" where
  "quoted_header_dir env podName =
     [CHR 0x22] @ path_join env [PODS_PUBLIC_HEADERS_DIR env, podName] @ [CHR 0x22]"

definition constructHeaderSearchPaths :: "node_env \<Rightarrow> string list \<Rightarrow> string" where
  "constructHeaderSearchPaths env deps =
     trim (''$(inherited) ''
       @ join '' '' (map (quoted_header_dir env) (podsToSearchForHeaders deps)))"

definition createSpecFromPodspecAsync ::
  "node_env \<Rightarrow> Podspec \<Rightarrow> (string \<Rightarrow> error + ProjectSpecDependency option) \<Rightarrow> error + ProjectSpec" where
  "createSpecFromPodspecAsync env podspec dependencyResolver =
     (let platform_keys = map fst (platforms podspec);
          deployment =
            fold (\<lambda>(p, v) acc. AList.update (property_key (map_of PLATFORMS_MAPPING p)) v acc)
              (platforms podspec) [];
          dependenciesNames =
            (case dependencies podspec of Some d \<Rightarrow> map fst d | None \<Rightarrow> [])
      in case mapAsync dependenciesNames dependencyResolver of
           Inl e \<Rightarrow> Inl e
         | Inr resolved \<Rightarrow>
             (let deps = filter_Boolean resolved;
                  bundleId = podNameToBundleId (name podspec)
              in case semver_major env (version podspec) of
                   None \<Rightarrow> Inl (InvalidVersion (version podspec))
                 | Some major \<Rightarrow>
                     Inr \<lparr>spec_name = name podspec,
                          targets =
                            [(name podspec,
                              \<lparr>target_type = ''framework'',
                               platform = map (map_of PLATFORMS_MAPPING) platform_keys,
                               sources =
                                 [\<lparr>source_path = [],
                                   source_name = Some (name podspec),
                                   createIntermediateGroups = Some True,
                                   source_includes = Some (arrayize (source_files podspec)),
                                   source_excludes =
                                     Some ([INFO_PLIST_FILENAME, name podspec @ ''.spec.json'',
                                            ''*.xcodeproj'', ''*.xcframework'', ''*.podspec'']
                                           @ arrayize (exclude_files podspec)),
                                   compilerFlags = compiler_flags podspec\<rparr>],
                               target_dependencies =
                                 map (\<lambda>fw. no_dependency\<lparr>sdk := Some (fw @ ''.framework'')\<rparr>)
                                   (arrayize (frameworks podspec))
                                 @ deps,
                               target_settings_base =
                                 mergeXcodeConfigs
                                   [case pod_target_xcconfig podspec of Some c \<Rightarrow> c | None \<Rightarrow> [],
                                    [(''MACH_O_TYPE'', Str ''staticlib'')]],
                               info =
                                 \<lparr>info_path = INFO_PLIST_FILENAME,
                                  properties =
                                    mergeXcodeConfigs
                                      [[(''CFBundleIdentifier'', Str bundleId),
                                        (''CFBundleName'', Str (name podspec)),
                                        (''CFBundleShortVersionString'', Str (version podspec)),
                                        (''CFBundleVersion'', Num major)],
                                       case info_plist podspec of Some c \<Rightarrow> c | None \<Rightarrow> []]\<rparr>\<rparr>)],
                          options =
                            \<lparr>minimumXcodeGenVersion = ''2.18.0'', deploymentTarget = deployment\<rparr>,
                          settings_base =
                            \<lparr>PRODUCT_BUNDLE_IDENTIFIER = bundleId,
                             IPHONEOS_DEPLOYMENT_TARGET = map_of (platforms podspec) ''ios'',
                             FRAMEWORK_SEARCH_PATHS = constructFrameworkSearchPaths env deps,
                             HEADER_SEARCH_PATHS = constructHeaderSearchPaths env dependenciesNames,
                             VALIDATE_WORKSPACE_SKIPPED_SDK_FRAMEWORKS =
                               join '' '' (arrayize (frameworks podspec))\<rparr>\<rparr>))"

section \<open>Running the project generator\<close>

text \<open>
  The file system is a map from paths to contents. \<open>stringify\<close> is the text that
  \<open>fs.outputJSON\<close> writes for a specification. \<open>spawnAsync\<close> is the child process: it
  is given the command, its arguments and the working directory, it may change any file,
  and it either ends well (\<open>None\<close>) or makes the awaited promise reject.
\<close>

type_synonym files = "string \<rightharpoonup> string"

record process_env =
  stringify :: "ProjectSpec \<Rightarrow> string"
  spawnAsync :: "string \<Rightarrow> string list \<Rightarrow> string \<Rightarrow> files \<Rightarrow> error option \<times> files"

definition generateXcodeProjectAsync ::
  "node_env \<Rightarrow> process_env \<Rightarrow> string \<Rightarrow> ProjectSpec \<Rightarrow> files \<Rightarrow> (error + string) \<times> files" where
  "generateXcodeProjectAsync env proc dir spec fs =
     (let specPath = path_join env [dir, spec_name spec @ ''.spec.json''];
          fs1 = fs(specPath \<mapsto> stringify proc spec);
          (failure, fs2) =
            spawnAsync proc ''yarn''
              [''--silent'', ''run'', ''xcodegen'', ''--quiet'', ''--spec'', specPath]
              (EXPOTOOLS_DIR env) fs1
      in case failure of
           Some e \<Rightarrow> (Inl e, fs2)
         | None \<Rightarrow> (Inr (path_join env [dir, spec_name spec @ ''.xcodeproj'']),
                     fs2(specPath := None)))"

section \<open>The prebuild and clean tasks\<close>

text \<open>
  The tasks only act on the outside: they log and they call the pre-builder. A run is the
  list of these events in order, with the error that ended it, if any. The events are
  \<open>logger.log()\<close>, a blank line; \<open>logger.info\<close> with the message of the clean task;
  \<open>logger.info\<close> with the message of the prebuild task and the name of a package; a call
  of \<open>cleanFrameworksAsync\<close> with its packages; and a call of \<open>prebuildPackageAsync\<close>
  with its package and the option \<open>quiet\<close>. The pre-builder (\<open>canPrebuildPackage\<close>, and
  whether \<open>prebuildPackageAsync\<close> and \<open>cleanFrameworksAsync\<close> fail) is not among the
  sources and is a parameter. A call that fails ends the task with its error.
\<close>

record 'pkg Parcel =
  pkg :: 'pkg

datatype 'pkg event =
    LogBlank
  | InfoCleaning
  | InfoPrebuilding string
  | CleanFrameworks "'pkg list"
  | PrebuildPackage 'pkg bool

record 'pkg PreBuilder =
  canPrebuildPackage :: "'pkg \<Rightarrow> bool"
  packageName :: "'pkg \<Rightarrow> string"
  prebuildPackageAsync :: "'pkg \<Rightarrow> error option"
  cleanFrameworksAsync :: "'pkg list \<Rightarrow> error option"

definition cleanPrebuilds ::
  "'pkg PreBuilder \<Rightarrow> ('pkg, 'more) Parcel_scheme list \<Rightarrow> 'pkg event list \<times> error option" where
  "cleanPrebuilds pb parcels =
     (let packagesToClean = filter (canPrebuildPackage pb) (map pkg parcels)
      in if length packagesToClean \<noteq> 0
         then ([LogBlank, InfoCleaning, CleanFrameworks packagesToClean],
               cleanFrameworksAsync pb packagesToClean)
         else ([LogBlank], None))"

fun prebuild_loop ::
  "'pkg PreBuilder \<Rightarrow> ('pkg, 'more) Parcel_scheme list \<Rightarrow> 'pkg event list \<times> error option" where
  "prebuild_loop pb [] = ([], None)"
| "prebuild_loop pb (parcel # parcels) =
     (if \<not> canPrebuildPackage pb (pkg parcel) then prebuild_loop pb parcels
      else (case prebuildPackageAsync pb (pkg parcel) of
              Some e \<Rightarrow>
                ([InfoPrebuilding (packageName pb (pkg parcel)), PrebuildPackage (pkg parcel) True],
                 Some e)
            | None \<Rightarrow>
                (case prebuild_loop pb parcels of
                   (events, result) \<Rightarrow>
                     (InfoPrebuilding (packageName pb (pkg parcel))
                        # PrebuildPackage (pkg parcel) True # events,
                      result))))"

definition prebuildPackages ::
  "'pkg PreBuilder \<Rightarrow> ('pkg, 'more) Parcel_scheme list \<Rightarrow> 'pkg event list \<times> error option" where
  "prebuildPackages pb parcels =
     (case prebuild_loop pb parcels of (events, result) \<Rightarrow> (LogBlank # events, result))"

section \<open>Example inputs\<close>

text \<open>
  Stand-ins for what lies outside the repository, used where a statement is tried on a
  concrete input: the major version is the number before the first dot, a path is its
  non-empty segments joined by slashes, the directory of a path is what precedes its
  last slash.
\<close>

definition example_env :: node_env where
  "example_env =
     \<lparr>semver_major =
        (\<lambda>v. if takeWhile is_digit v = [] then None
             else Some (fold (\<lambda>c n. 10 * n + (of_char c - of_char CHR ''0''))
                          (takeWhile is_digit v) 0)),
      path_join = (\<lambda>parts. join ''/'' (filter (\<lambda>p. p \<noteq> []) parts)),
      path_dirname = (\<lambda>p. rev (drop 1 (dropWhile (\<lambda>c. c \<noteq> CHR ''/'') (rev p)))),
      IOS_DIR = ''/expo/ios'',
      EXPOTOOLS_DIR = ''/expo/tools/expotools''\<rparr>"

definition example_podspec :: Podspec where
  "example_podspec =
     \<lparr>name = ''EXLocation'', version = ''1.2.3'', platforms = [(''ios'', ''12.0'')],
      dependencies = Some [(''Z'', []), (''Y'', [])],
      source_files = Scalar ''Sources/**/*.m'', exclude_files = Missing,
      compiler_flags = None, frameworks = Array [''CoreLocation''],
      pod_target_xcconfig = None, info_plist = None\<rparr>"

definition example_descriptor :: ProjectSpecDependency where
  "example_descriptor = no_dependency\<lparr>target := Some ''Y''\<rparr>"

definition example_resolver :: "string \<Rightarrow> error + ProjectSpecDependency option" where
  "example_resolver dependencyName =
     (if dependencyName = ''Y'' then Inr (Some example_descriptor) else Inr None)"

text \<open>Two generator processes that leave the files alone: one ends well without
  writing a project, one fails.\<close>

definition idle_process :: process_env where
  "idle_process = \<lparr>stringify = (\<lambda>spec. ''{}''), spawnAsync = (\<lambda>cmd args cwd fs. (None, fs))\<rparr>"

definition failing_process :: process_env where
  "failing_process =
     \<lparr>stringify = (\<lambda>spec. ''{}''),
      spawnAsync = (\<lambda>cmd args cwd fs. (Some (SpawnError cmd), fs))\<rparr>"

definition example_spec :: ProjectSpec where
  "example_spec =
     \<lparr>spec_name = ''EXLocation'', targets = [],
      options = \<lparr>minimumXcodeGenVersion = ''2.18.0'', deploymentTarget = []\<rparr>,
      settings_base =
        \<lparr>PRODUCT_BUNDLE_IDENTIFIER = [], IPHONEOS_DEPLOYMENT_TARGET = None,
         FRAMEWORK_SEARCH_PATHS = [], HEADER_SEARCH_PATHS = [],
         VALIDATE_WORKSPACE_SKIPPED_SDK_FRAMEWORKS = []\<rparr>\<rparr>"

text \<open>A pre-builder over package names: the packages it can prebuild are those named
  \<open>expo-...\<close>, and no operation fails.\<close>

definition example_prebuilder :: "string PreBuilder" where
  "example_prebuilder =
     \<lparr>canPrebuildPackage = (\<lambda>p. startsWith p ''expo-''),
      packageName = (\<lambda>p. p),
      prebuildPackageAsync = (\<lambda>p. None),
      cleanFrameworksAsync = (\<lambda>ps. None)\<rparr>"

definition example_parcels :: "string Parcel list" where
  "example_parcels = [\<lparr>pkg = ''expo-a''\<rparr>, \<lparr>pkg = ''unimodules-b''\<rparr>, \<lparr>pkg = ''expo-c''\<rparr>]"

section \<open>Properties of the matcher\<close>

text \<open>
  The backtracking of a quantifier returns the first count that succeeds from the top, and
  nothing when no count succeeds.
\<close>

lemma try_counts_None: "(\<And>k. lo \<le> k \<Longrightarrow> k \<le> hi \<Longrightarrow> g k = None) \<Longrightarrow> try_counts g lo hi = None"
  by (induction hi) auto

lemma try_counts_top: "lo \<le> hi \<Longrightarrow> g hi = Some r \<Longrightarrow> try_counts g lo hi = Some r"
  by (cases hi) auto

lemma take_length_takeWhile: "take (length (takeWhile p s)) s = takeWhile p s"
  by (induction s) auto

lemma drop_length_takeWhile: "drop (length (takeWhile p s)) s = dropWhile p s"
  by (induction s) auto

lemma match_Plus: "match_here [Plus p] b s = (if takeWhile p s = [] then None else Some [takeWhile p s])"
proof (cases "takeWhile p s = []")
  case True
  then show ?thesis by simp
next
  case False
  then have "1 \<le> length (takeWhile p s)" by (cases "takeWhile p s") auto
  then show ?thesis using False
    by (simp add: try_counts_top take_length_takeWhile)
qed

lemma takeWhile_drop_disjoint:
  assumes dis: "\<And>c. d c \<Longrightarrow> \<not> u c" and k: "k < length (takeWhile d s)"
  shows "takeWhile u (drop k s) = []"
proof -
  have len: "k < length s" using k length_takeWhile_le [of d s] by (meson le_trans not_le)
  have "d (s ! k)" using k by (metis nth_mem set_takeWhileD takeWhile_nth)
  then have "\<not> u (s ! k)" by (rule dis)
  moreover have "drop k s = s ! k # drop (Suc k) s" using len by (simp add: Cons_nth_drop_Suc)
  ultimately show ?thesis by simp
qed

lemma match_Star_Plus:
  assumes dis: "\<And>c. d c \<Longrightarrow> \<not> u c"
  shows "match_here [Star d, Plus u] b s =
     (if takeWhile u (dropWhile d s) = [] then None
      else Some [takeWhile d s, takeWhile u (dropWhile d s)])"
proof -
  let ?g = "\<lambda>k. map_option (Cons (take k s)) (match_here [Plus u] (b \<and> k = 0) (drop k s))"
  let ?n = "length (takeWhile d s)"
  have m: "match_here [Star d, Plus u] b s = try_counts ?g 0 ?n" by simp
  show ?thesis
  proof (cases "takeWhile u (dropWhile d s) = []")
    case True
    have "try_counts ?g 0 ?n = None"
    proof (rule try_counts_None)
      fix k assume "k \<le> ?n"
      then consider "k < ?n" | "k = ?n" by linarith
      then show "?g k = None"
      proof cases
        case 1 then show ?thesis using takeWhile_drop_disjoint [OF dis] by (simp only: match_Plus) simp
      next
        case 2 then show ?thesis using True by (simp only: match_Plus drop_length_takeWhile) simp
      qed
    qed
    then show ?thesis using True m by simp
  next
    case False
    have "?g ?n = Some [takeWhile d s, takeWhile u (dropWhile d s)]"
      using False by (simp only: match_Plus drop_length_takeWhile take_length_takeWhile) simp
    then have "try_counts ?g 0 ?n = Some [takeWhile d s, takeWhile u (dropWhile d s)]"
      by (intro try_counts_top) simp_all
    then show ?thesis using False m by simp
  qed
qed

text \<open>One step of the global replacement, on a match and on no match.\<close>

lemma replace_global_hit:
  assumes "match_here rx b (c # cs) = Some gs" and "concat gs \<noteq> []"
  shows "replace_global rx f b (c # cs)
           = f gs @ replace_global rx f False (drop (length (concat gs)) (c # cs))"
  using assms by auto

lemma replace_global_miss:
  assumes "match_here rx b (c # cs) = None"
  shows "replace_global rx f b (c # cs) = c # replace_global rx f False cs"
  using assms by simp

text \<open>
  The two global replacements of \<open>podNameToBundleId\<close> are the two rewritings on runs,
  and its two anchored replacements are prefix replacements.
\<close>

lemma replace_global_Plus:
  "replace_global [Plus p] (\<lambda>gs. ''.'') b s = collapse_runs p s"
proof (induction p s arbitrary: b rule: collapse_runs.induct)
  case (1 p)
  show ?case by (simp add: match_Plus)
next
  case (2 p c cs)
  let ?s = "c # cs"
  show ?case
  proof (cases "p c")
    case True
    have m: "match_here [Plus p] b ?s = Some [takeWhile p ?s]"
      using True by (simp only: match_Plus) simp
    have ne: "concat [takeWhile p ?s] \<noteq> []" using True by simp
    have "drop (length (concat [takeWhile p ?s])) ?s = dropWhile p ?s"
      by (simp only: concat.simps append_Nil2 drop_length_takeWhile)
    also have "\<dots> = dropWhile p cs" using True by simp
    finally have d: "drop (length (concat [takeWhile p ?s])) ?s = dropWhile p cs" .
    show ?thesis
      by (simp only: replace_global_hit [OF m ne] d 2(1) [OF True]) (simp add: True)
  next
    case False
    have m: "match_here [Plus p] b ?s = None"
      using False by (simp only: match_Plus) simp
    show ?thesis
      by (simp only: replace_global_miss [OF m] 2(2) [OF False]) (simp add: False)
  qed
qed

lemma replace_global_Star_Plus:
  "replace_global [Star is_dot, Plus is_upper] (\<lambda>gs. CHR ''.'' # toLowerCase (gs ! 1)) b s
     = dot_upper_runs s"
proof (induction s arbitrary: b rule: dot_upper_runs.induct)
  case 1
  have dis: "\<And>c. is_dot c \<Longrightarrow> \<not> is_upper c"
    by (auto simp: is_dot_def is_upper_def less_eq_char_def)
  show ?case by (simp only: replace_global.simps match_Star_Plus [of is_dot is_upper, OF dis]) simp
next
  case (2 c cs)
  have dis: "\<And>c. is_dot c \<Longrightarrow> \<not> is_upper c"
    by (auto simp: is_dot_def is_upper_def less_eq_char_def)
  note m = match_Star_Plus [of is_dot is_upper, OF dis]
  let ?s = "c # cs"
  let ?u = "takeWhile is_upper (dropWhile is_dot ?s)"
  show ?case
  proof (cases "?u = []")
    case True
    have mm: "match_here [Star is_dot, Plus is_upper] b ?s = None"
      using True by (simp only: m) simp
    show ?thesis
      using True by (simp only: replace_global_miss [OF mm] 2(1) [OF True] dot_upper_runs.simps) simp
  next
    case False
    let ?gs = "[takeWhile is_dot ?s, ?u]"
    have mm: "match_here [Star is_dot, Plus is_upper] b ?s = Some ?gs"
      using False by (simp only: m) simp
    have ne: "concat ?gs \<noteq> []" using False by simp
    have split: "concat ?gs @ dropWhile is_upper (dropWhile is_dot ?s) = ?s"
      by (simp only: concat.simps append_Nil2 append_assoc takeWhile_dropWhile_id)
    have d: "drop (length (concat ?gs)) ?s = dropWhile is_upper (dropWhile is_dot ?s)"
      using split by (metis append_eq_conv_conj)
    have g: "?gs ! 1 = ?u" by simp
    show ?thesis
      using False by (simp only: replace_global_hit [OF mm ne] d 2(2) [OF False] dot_upper_runs.simps g) simp
  qed
qed

lemma match_Bol_False: "match_here (Bol # rx) False s = None"
  by simp

lemma replace_first_Bol_False: "replace_first (Bol # rx) f False s = s"
  by (induction s) (simp_all del: match_here.simps add: match_Bol_False)

lemma replace_first_prefix2:
  "replace_first [Bol, One (\<lambda>c. c = a), One (\<lambda>c. c = b)] (\<lambda>gs. r) True s = replace_prefix [a, b] r s"
proof (cases s)
  case Nil
  then show ?thesis by (simp add: replace_prefix_def startsWith_def)
next
  case (Cons x xs)
  then show ?thesis
    by (cases xs) (auto simp del: replace_first.simps(2) simp add: replace_first.simps(2) [of _ _ True] replace_first_Bol_False replace_prefix_def startsWith_def)
qed

lemma podNameToBundleId_runs:
  "podNameToBundleId podName =
     dot_upper_runs (collapse_runs is_separator
       (replace_prefix ''EX'' ''expo'' (replace_prefix ''UM'' ''unimodules'' podName)))"
  by (simp only: podNameToBundleId_def rx_UM_def rx_EX_def rx_separators_def rx_upper_run_def
        replace_first_prefix2 replace_global_Plus replace_global_Star_Plus)

section \<open>Bundle identifiers: what the rewriting produces\<close>

lemma is_separator_iff: "is_separator c = (\<not> is_alnum c \<and> c \<noteq> CHR ''.'')"
  by (auto simp: is_separator_def is_alnum_def is_word_def is_digit_def is_upper_def is_lower_def less_eq_char_def)

lemma set_collapse_runs: "set (collapse_runs p s) \<subseteq> insert CHR ''.'' {c \<in> set s. \<not> p c}"
proof (induction p s rule: collapse_runs.induct)
  case (1 p)
  show ?case by simp
next
  case (2 p c cs)
  show ?case
  proof (cases "p c")
    case True
    have "set (dropWhile p cs) \<subseteq> set cs" by (rule set_dropWhileD [THEN subsetI])
    then show ?thesis using True 2(1) [OF True] by auto
  next
    case False
    then show ?thesis using 2(2) [OF False] by auto
  qed
qed

lemma lower_char_upper: "is_upper c \<Longrightarrow> is_lower (lower_char c)"
  by (simp add: is_upper_def is_lower_def lower_char_def less_eq_char_def)

lemma lower_not_upper: "is_lower c \<Longrightarrow> \<not> is_upper c \<and> c \<noteq> CHR ''_''"
  by (auto simp: is_upper_def is_lower_def less_eq_char_def)

lemma digit_not_upper: "is_digit c \<Longrightarrow> \<not> is_upper c \<and> c \<noteq> CHR ''_''"
  by (auto simp: is_upper_def is_digit_def less_eq_char_def)

lemma dot_not_upper: "is_dot c \<Longrightarrow> \<not> is_upper c"
  by (auto simp: is_upper_def is_dot_def less_eq_char_def)

lemma set_dot_upper_runs:
  "set (dot_upper_runs s) \<subseteq> insert CHR ''.'' ({c. is_lower c} \<union> {c \<in> set s. \<not> is_upper c})"
proof (induction s rule: dot_upper_runs.induct)
  case 1
  show ?case by simp
next
  case (2 c cs)
  let ?s = "c # cs"
  let ?u = "takeWhile is_upper (dropWhile is_dot ?s)"
  show ?case
  proof (cases "?u = []")
    case True
    have "\<not> is_upper c"
    proof
      assume u: "is_upper c"
      then have "\<not> is_dot c" using dot_not_upper by blast
      then have "?u \<noteq> []" using u by simp
      then show False using True by simp
    qed
    then show ?thesis using True 2(1) [OF True] by (simp only: dot_upper_runs.simps) auto
  next
    case False
    have low: "set (toLowerCase ?u) \<subseteq> {c. is_lower c}"
      using lower_char_upper by (auto simp: toLowerCase_def dest: set_takeWhileD)
    have "set (dropWhile is_upper (dropWhile is_dot ?s)) \<subseteq> set ?s"
      by (meson set_dropWhileD subsetI)
    then have rest: "set (dot_upper_runs (dropWhile is_upper (dropWhile is_dot ?s)))
        \<subseteq> insert CHR ''.'' ({c. is_lower c} \<union> {c \<in> set ?s. \<not> is_upper c})"
      using 2(2) [OF False] by blast
    have "dot_upper_runs ?s = CHR ''.'' # toLowerCase ?u
             @ dot_upper_runs (dropWhile is_upper (dropWhile is_dot ?s))"
      using False by (simp only: dot_upper_runs.simps if_False)
    then show ?thesis using low rest by auto
  qed
qed

lemma podNameToBundleId_chars:
  assumes "c \<in> set (podNameToBundleId podName)"
  shows "c = CHR ''.'' \<or> is_lower c \<or> is_digit c"
proof -
  let ?t = "collapse_runs is_separator
       (replace_prefix ''EX'' ''expo'' (replace_prefix ''UM'' ''unimodules'' podName))"
  have "c \<in> set (dot_upper_runs ?t)" using assms by (simp only: podNameToBundleId_runs)
  then consider "c = CHR ''.''" | "is_lower c" | "c \<in> set ?t" "\<not> is_upper c"
    using set_dot_upper_runs [of ?t] by auto
  then show ?thesis
  proof cases
    case 3
    then have "c = CHR ''.'' \<or> \<not> is_separator c" using set_collapse_runs [of is_separator] by auto
    then show ?thesis using 3(2) by (auto simp: is_separator_iff is_alnum_def)
  qed auto
qed

text \<open>
  Claim C10. For every pod name, the string that \<open>podNameToBundleId\<close> returns contains
  no upper-case letter and no underscore. (Every character of the result is a dot, a
  lower-case letter or a digit, by \<open>podNameToBundleId_chars\<close>.)
\<close>

theorem podNameToBundleId_no_upper_no_underscore:
  "\<forall>c \<in> set (podNameToBundleId podName). \<not> is_upper c \<and> c \<noteq> CHR ''_''"
proof
  fix c assume "c \<in> set (podNameToBundleId podName)"
  then have "c = CHR ''.'' \<or> is_lower c \<or> is_digit c" by (rule podNameToBundleId_chars)
  then show "\<not> is_upper c \<and> c \<noteq> CHR ''_''"
    using lower_not_upper [of c] digit_not_upper [of c] dot_not_upper [of c]
    by (auto simp: is_dot_def)
qed

theorem podNameToBundleId_no_upper_no_underscore_witness:
  "podNameToBundleId ''UMBar_Baz'' = ''unimodules.bar.baz''
   \<and> CHR ''b'' \<in> set (podNameToBundleId ''UMBar_Baz'')
   \<and> \<not> is_upper CHR ''b'' \<and> CHR ''b'' \<noteq> CHR ''_''"
proof -
  have e: "podNameToBundleId ''UMBar_Baz'' = ''unimodules.bar.baz''" by code_simp
  have m: "CHR ''b'' \<in> set (podNameToBundleId ''UMBar_Baz'')" by (simp only: e) simp
  show ?thesis
    using e m podNameToBundleId_no_upper_no_underscore [of "''UMBar_Baz''"] by blast
qed

text \<open>
  Claim C3, as it is worded, fails on dots: the source leaves the dot out of the class of
  characters that are collapsed (\<open>[^\w\d\.]\<close>), so a run of dots in the pod name stays
  as it is, while the wording collapses every run of non-alphanumeric characters. (On the
  two names of the claim the wording and the source agree.)
\<close>

theorem podNameToBundleId_counterexample:
  "podNameToBundleId ''a..b'' = ''a..b'' \<and> podNameToBundleId_worded ''a..b'' = ''a.b''
   \<and> podNameToBundleId_worded ''EXFoo'' = ''expo.foo''
   \<and> podNameToBundleId_worded ''UMBar_Baz'' = ''unimodules.bar.baz''"
  by code_simp

text \<open>
  Claim C3, amended. \<open>podNameToBundleId\<close> maps \<open>EXFoo\<close> to \<open>expo.foo\<close> and
  \<open>UMBar_Baz\<close> to \<open>unimodules.bar.baz\<close>. In general it replaces the prefix \<open>UM\<close> by
  \<open>unimodules\<close>, then the prefix \<open>EX\<close> by \<open>expo\<close>, then every run of characters
  that are neither alphanumeric nor dots by one dot, then every run of upper-case
  letters, with the dots directly before it, by one dot and the run in lower case.
\<close>

theorem podNameToBundleId_rewriting:
  "podNameToBundleId ''EXFoo'' = ''expo.foo''
   \<and> podNameToBundleId ''UMBar_Baz'' = ''unimodules.bar.baz''
   \<and> (\<forall>podName. podNameToBundleId podName =
         dot_upper_runs (collapse_runs (\<lambda>c. \<not> is_alnum c \<and> c \<noteq> CHR ''.'')
           (replace_prefix ''EX'' ''expo'' (replace_prefix ''UM'' ''unimodules'' podName))))"
proof -
  have 1: "podNameToBundleId ''EXFoo'' = ''expo.foo''" by code_simp
  have 2: "podNameToBundleId ''UMBar_Baz'' = ''unimodules.bar.baz''" by code_simp
  have "is_separator = (\<lambda>c. \<not> is_alnum c \<and> c \<noteq> CHR ''.'')"
    by (rule ext) (rule is_separator_iff)
  then have 3: "\<forall>podName. podNameToBundleId podName =
         dot_upper_runs (collapse_runs (\<lambda>c. \<not> is_alnum c \<and> c \<noteq> CHR ''.'')
           (replace_prefix ''EX'' ''expo'' (replace_prefix ''UM'' ''unimodules'' podName)))"
    using podNameToBundleId_runs by simp
  show ?thesis using 1 2 3 by blast
qed

theorem podNameToBundleId_rewriting_witness:
  "podNameToBundleId ''React-Core'' = ''.react.core''
   \<and> dot_upper_runs (collapse_runs (\<lambda>c. \<not> is_alnum c \<and> c \<noteq> CHR ''.'')
         (replace_prefix ''EX'' ''expo'' (replace_prefix ''UM'' ''unimodules'' ''React-Core'')))
       = ''.react.core''"
proof -
  have e: "podNameToBundleId ''React-Core'' = ''.react.core''" by code_simp
  from podNameToBundleId_rewriting
  have "podNameToBundleId ''React-Core'' =
         dot_upper_runs (collapse_runs (\<lambda>c. \<not> is_alnum c \<and> c \<noteq> CHR ''.'')
           (replace_prefix ''EX'' ''expo'' (replace_prefix ''UM'' ''unimodules'' ''React-Core'')))"
    by blast
  then show ?thesis using e by simp
qed

section \<open>Merging: the token and the overwrite\<close>

text \<open>
  The regular expression of \<open>mergeXcodeConfigValue\<close> matches nowhere: after its \<open>$\<close>,
  the end of the input, it still asks for the text \<open>(inherited)\<close>. So the replacement
  changes nothing, and a merge into a value with the token keeps every token of both
  values and puts one more in front.
\<close>

lemma match_One_None:
  assumes "\<And>b t. match_here rx b t = None"
  shows "match_here (One p # rx) b s = None"
  by (cases s) (simp_all add: assms)

lemma match_Star_None:
  assumes "\<And>b t. match_here rx b t = None"
  shows "match_here (Star p # rx) b s = None"
  by (simp add: assms try_counts_None)

lemma match_Eol_One: "match_here (Eol # One p # rx) b s = None"
  by (cases s) simp_all

lemma match_inherited_None: "match_here rx_inherited b s = None"
  unfolding rx_inherited_def
  by (simp only: list.map append.simps, rule match_One_None, rule match_Star_None, rule match_Eol_One)

lemma replace_global_never:
  assumes "\<And>b s. match_here rx b s = None"
  shows "replace_global rx f b s = s"
  by (induction s arbitrary: b) (simp_all add: assms)

lemma replace_inherited_id: "replace_global rx_inherited f b s = s"
  by (rule replace_global_never) (rule match_inherited_None)

lemma mergeXcodeConfigValue_inherited:
  assumes "str_includes prev ''$(inherited)''"
  shows "mergeXcodeConfigValue (Some (Str prev)) nextValue
           = Str (''$(inherited) '' @ prev @ '' '' @ js_string nextValue)"
proof -
  have "prev \<noteq> []" using assms by (auto simp: startsWith_def)
  then show ?thesis using assms
    by (simp only: mergeXcodeConfigValue_def replace_inherited_id) simp
qed

text \<open>
  Claim C1 says that merging \<open>{A: "$(inherited) x"}\<close> and then \<open>{A: "y"}\<close> yields
  \<open>{A: "$(inherited) x y"}\<close>, the tokens inside the concatenation collapsed into a
  space. The code yields a value with the token twice.
\<close>

theorem merge_inherited_duplicates_token:
  "mergeXcodeConfigs [[(''A'', Str ''$(inherited) x'')], [(''A'', Str ''y'')]]
     = [(''A'', Str ''$(inherited) $(inherited) x y'')]"
proof -
  have i: "str_includes ''$(inherited) x'' ''$(inherited)''" by (simp add: startsWith_def)
  have a: "mergeXcodeConfigValue None v = v" for v
    by (simp add: mergeXcodeConfigValue_def)
  have b: "mergeXcodeConfigValue (Some (Str ''$(inherited) x'')) (Str ''y'')
             = Str ''$(inherited) $(inherited) x y''"
    using mergeXcodeConfigValue_inherited [OF i, of "Str ''y''"] by simp
  show ?thesis
    by (simp add: mergeXcodeConfigs_def a b)
qed







section \<open>Translating a podspec: when it succeeds and what it returns\<close>

text \<open>
  \<open>mapAsync\<close> succeeds exactly when every call succeeds, and then returns the results
  of the calls in the order of the elements.
\<close>

lemma mapAsync_results:
  "mapAsync xs f = Inr ys \<Longrightarrow> map f xs = map Inr ys"
proof (induction xs arbitrary: ys)
  case Nil
  then show ?case by simp
next
  case (Cons x xs)
  from Cons.prems obtain y zs where y: "f x = Inr y" and zs: "mapAsync xs f = Inr zs"
    and ys: "ys = y # zs"
    by (auto split: sum.splits)
  have "map f xs = map Inr zs" using zs by (rule Cons.IH)
  then show ?case using y ys by simp
qed

lemma mapAsync_total:
  assumes "\<forall>x \<in> set xs. \<exists>y. f x = Inr y"
  shows "\<exists>ys. mapAsync xs f = Inr ys"
  using assms
proof (induction xs)
  case Nil
  show ?case by simp
next
  case (Cons x xs)
  obtain y where y: "f x = Inr y" using Cons.prems by auto
  have "\<exists>ys. mapAsync xs f = Inr ys" using Cons by simp
  then obtain ys where "mapAsync xs f = Inr ys" ..
  then show ?case using y by simp
qed

lemma filter_Boolean_wrapped:
  "map (\<lambda>d. Inr (Some d)) (filter_Boolean ys) = filter (\<lambda>r. r \<noteq> Inr None) (map Inr ys)"
  unfolding filter_Boolean_def
proof (induction ys)
  case Nil
  show ?case by simp
next
  case (Cons y ys)
  then show ?case by (cases y) simp_all
qed


text \<open>
  When every dependency name resolves and the version is valid, the translation returns a
  specification; the lemma names the parts of it that the statements below are about.
\<close>

lemma createSpec_fields:
  assumes r: "mapAsync (case dependencies podspec of Some d \<Rightarrow> map fst d | None \<Rightarrow> []) resolver
                = Inr resolved"
    and m: "semver_major env (version podspec) = Some major"
  shows "\<exists>spec t. createSpecFromPodspecAsync env podspec resolver = Inr spec
     \<and> targets spec = [(name podspec, t)]
     \<and> deploymentTarget (options spec) =
          fold (\<lambda>(p, v) acc. AList.update (property_key (map_of PLATFORMS_MAPPING p)) v acc)
            (platforms podspec) []
     \<and> target_dependencies t =
          map (\<lambda>fw. no_dependency\<lparr>sdk := Some (fw @ ''.framework'')\<rparr>)
            (arrayize (frameworks podspec)) @ filter_Boolean resolved
     \<and> properties (info t) =
          mergeXcodeConfigs
            [[(''CFBundleIdentifier'', Str (podNameToBundleId (name podspec))),
              (''CFBundleName'', Str (name podspec)),
              (''CFBundleShortVersionString'', Str (version podspec)),
              (''CFBundleVersion'', Num major)],
             case info_plist podspec of Some c \<Rightarrow> c | None \<Rightarrow> []]"
  unfolding createSpecFromPodspecAsync_def Let_def
  by (simp only: r m sum.case option.case) simp

subsection \<open>Deployment targets\<close>

text \<open>
  The deployment targets are assigned key by key, so of the manifest keys that translate
  to one platform name the last one gives the value.
\<close>

lemma platform_not_undefined: "map_of PLATFORMS_MAPPING p = Some q \<Longrightarrow> q \<noteq> ''undefined''"
  by (auto simp: PLATFORMS_MAPPING_def split: if_splits)

lemma deployment_later_keys:
  assumes "\<And>p v. (p, v) \<in> set after \<Longrightarrow> f p \<noteq> q"
  shows "map_of (fold (\<lambda>(p, v) acc. AList.update (f p) v acc) after acc) q = map_of acc q"
  using assms
proof (induction after arbitrary: acc)
  case Nil
  show ?case by simp
next
  case (Cons e after)
  obtain p v where e: "e = (p, v)" by (cases e)
  have "f p \<noteq> q" using Cons.prems [of p v] e by simp
  moreover have "map_of (fold (\<lambda>(p, v) acc. AList.update (f p) v acc) after
                    (AList.update (f p) v acc)) q = map_of (AList.update (f p) v acc) q"
    by (rule Cons.IH) (use Cons.prems in auto)
  ultimately show ?case using e by (simp add: update_conv')
qed

lemma deployment_last_wins:
  assumes "\<And>p' v'. (p', v') \<in> set after \<Longrightarrow> f p' \<noteq> f p"
  shows "map_of (fold (\<lambda>(p, v) acc. AList.update (f p) v acc) (before @ (p, v) # after) acc) (f p)
           = Some v"
proof -
  let ?step = "\<lambda>(p, v) acc. AList.update (f p) v acc"
  have "fold ?step (before @ (p, v) # after) acc
          = fold ?step after (AList.update (f p) v (fold ?step before acc))"
    by simp
  then show ?thesis
    using deployment_later_keys [of after f "f p", OF assms]
    by (simp add: update_conv')
qed

text \<open>
  Claim C2, as it is worded, pairs every manifest key with its own version. The table
  translates both \<open>osx\<close> and \<open>macos\<close> to \<open>macOS\<close>: for a manifest with both keys
  the deployment targets have one entry for \<open>macOS\<close>, with the version of the later key,
  and the version of \<open>osx\<close> is paired with nothing.
\<close>

theorem deploymentTarget_counterexample:
  "map_sum id (\<lambda>spec. deploymentTarget (options spec))
     (createSpecFromPodspecAsync example_env
        (example_podspec\<lparr>platforms := [(''osx'', ''10.10''), (''macos'', ''10.15'')]\<rparr>)
        example_resolver)
   = Inr [(''macOS'', ''10.15'')]
   \<and> map_of PLATFORMS_MAPPING ''osx'' = Some ''macOS''"
proof -
  let ?pod = "example_podspec\<lparr>platforms := [(''osx'', ''10.10''), (''macos'', ''10.15'')]\<rparr>"
  have r: "mapAsync (case dependencies ?pod of Some d \<Rightarrow> map fst d | None \<Rightarrow> []) example_resolver
             = Inr [None, Some example_descriptor]"
    by (simp add: example_podspec_def example_resolver_def)
  have m: "semver_major example_env (version ?pod) = Some 1"
    by (simp add: example_podspec_def example_env_def is_digit_def less_eq_char_def)
  from createSpec_fields [OF r m] obtain spec where
    s: "createSpecFromPodspecAsync example_env ?pod example_resolver = Inr spec"
    and d: "deploymentTarget (options spec) =
          fold (\<lambda>(p, v) acc. AList.update (property_key (map_of PLATFORMS_MAPPING p)) v acc)
            (platforms ?pod) []"
    by blast
  have "deploymentTarget (options spec) = [(''macOS'', ''10.15'')]"
    by (simp add: d PLATFORMS_MAPPING_def property_key_def)
  moreover have "map_of PLATFORMS_MAPPING ''osx'' = Some ''macOS''"
    by (simp add: PLATFORMS_MAPPING_def)
  ultimately show ?thesis by (simp add: s)
qed

text \<open>
  Claim C2, amended. When every dependency name resolves and the version is valid, a
  specification is produced. For a manifest whose platform map is \<open>{ios: "12.0"}\<close> its
  deployment targets are \<open>{iOS: "12.0"}\<close>. In general, for each platform key of the
  manifest that the table translates, the deployment targets pair the translated name
  with that key's version, unless a later key of the manifest translates to the same
  name (then the later key's version is the one paired).
\<close>

theorem deploymentTarget_pairs:
  assumes "\<forall>n \<in> set (case dependencies podspec of Some d \<Rightarrow> map fst d | None \<Rightarrow> []).
             \<exists>r. resolver n = Inr r"
    and "semver_major env (version podspec) = Some major"
  shows "\<exists>spec. createSpecFromPodspecAsync env podspec resolver = Inr spec
     \<and> (platforms podspec = [(''ios'', ''12.0'')]
          \<longrightarrow> deploymentTarget (options spec) = [(''iOS'', ''12.0'')])
     \<and> (\<forall>before p v after q.
           platforms podspec = before @ (p, v) # after
           \<and> map_of PLATFORMS_MAPPING p = Some q
           \<and> (\<forall>(p', v') \<in> set after. map_of PLATFORMS_MAPPING p' \<noteq> Some q)
           \<longrightarrow> map_of (deploymentTarget (options spec)) q = Some v)"
proof -
  let ?key = "\<lambda>p. property_key (map_of PLATFORMS_MAPPING p)"
  obtain resolved where
    r: "mapAsync (case dependencies podspec of Some d \<Rightarrow> map fst d | None \<Rightarrow> []) resolver
          = Inr resolved"
    using mapAsync_total [OF assms(1)] by blast
  from createSpec_fields [OF r assms(2)] obtain spec where
    s: "createSpecFromPodspecAsync env podspec resolver = Inr spec"
    and d: "deploymentTarget (options spec) =
          fold (\<lambda>(p, v) acc. AList.update (?key p) v acc) (platforms podspec) []"
    by blast
  have ios: "deploymentTarget (options spec) = [(''iOS'', ''12.0'')]"
    if "platforms podspec = [(''ios'', ''12.0'')]"
    using that by (simp add: d PLATFORMS_MAPPING_def property_key_def)
  have gen: "map_of (deploymentTarget (options spec)) q = Some v"
    if split: "platforms podspec = before @ (p, v) # after"
      and q: "map_of PLATFORMS_MAPPING p = Some q"
      and later: "\<forall>(p', v') \<in> set after. map_of PLATFORMS_MAPPING p' \<noteq> Some q"
    for before p v after q
  proof -
    have kq: "?key p = q" using q by (simp add: property_key_def)
    have "?key p' \<noteq> ?key p" if "(p', v') \<in> set after" for p' v'
    proof (cases "map_of PLATFORMS_MAPPING p'")
      case None
      then show ?thesis using platform_not_undefined [OF q] kq by (simp add: property_key_def)
    next
      case (Some q')
      then show ?thesis using later that kq by (auto simp: property_key_def)
    qed
    then have "map_of (fold (\<lambda>(p, v) acc. AList.update (?key p) v acc)
                 (before @ (p, v) # after) []) (?key p) = Some v"
      by (rule deployment_last_wins)
    then show ?thesis by (simp only: d split kq)
  qed
  show ?thesis using s ios gen by blast
qed

theorem deploymentTarget_pairs_witness:
  "\<exists>spec. createSpecFromPodspecAsync example_env example_podspec example_resolver = Inr spec
     \<and> deploymentTarget (options spec) = [(''iOS'', ''12.0'')]
     \<and> map_of (deploymentTarget (options spec)) ''iOS'' = Some ''12.0''"
proof -
  have n: "\<forall>n \<in> set (case dependencies example_podspec of Some d \<Rightarrow> map fst d | None \<Rightarrow> []).
             \<exists>r. example_resolver n = Inr r"
    by (simp add: example_resolver_def)
  have m: "semver_major example_env (version example_podspec) = Some 1"
    by (simp add: example_podspec_def example_env_def is_digit_def less_eq_char_def)
  have p: "platforms example_podspec = [(''ios'', ''12.0'')]"
    by (simp add: example_podspec_def)
  from deploymentTarget_pairs [OF n m] p obtain spec where
    "createSpecFromPodspecAsync example_env example_podspec example_resolver = Inr spec"
    and "deploymentTarget (options spec) = [(''iOS'', ''12.0'')]"
    by blast
  then show ?thesis by auto
qed

subsection \<open>Dependencies and the information properties\<close>

text \<open>
  Claim C4. For every manifest and every resolver (that rejects for no dependency name
  of the manifest, the version being valid), the dependency list of the produced target
  is the SDK entries followed by the resolved dependencies \<open>ds\<close>: in the order in which
  the manifest declares the names, the descriptors of exactly those names for which the
  resolver returned one. The names for which it returned nothing leave no entry: the
  results of the resolver without the empty ones are the descriptors \<open>ds\<close>, one for one.
\<close>

theorem resolved_dependencies_in_order:
  assumes "\<forall>n \<in> set (case dependencies podspec of Some d \<Rightarrow> map fst d | None \<Rightarrow> []).
             \<exists>r. resolver n = Inr r"
    and "semver_major env (version podspec) = Some major"
  shows "\<exists>spec t ds. createSpecFromPodspecAsync env podspec resolver = Inr spec
     \<and> targets spec = [(name podspec, t)]
     \<and> target_dependencies t =
          map (\<lambda>fw. no_dependency\<lparr>sdk := Some (fw @ ''.framework'')\<rparr>)
            (arrayize (frameworks podspec)) @ ds
     \<and> map (\<lambda>d. Inr (Some d)) ds =
          filter (\<lambda>r. r \<noteq> Inr None)
            (map resolver (case dependencies podspec of Some d \<Rightarrow> map fst d | None \<Rightarrow> []))"
proof -
  let ?names = "case dependencies podspec of Some d \<Rightarrow> map fst d | None \<Rightarrow> []"
  obtain resolved where r: "mapAsync ?names resolver = Inr resolved"
    using mapAsync_total [OF assms(1)] by blast
  from createSpec_fields [OF r assms(2)] obtain spec t where
    s: "createSpecFromPodspecAsync env podspec resolver = Inr spec"
    and t: "targets spec = [(name podspec, t)]"
    and d: "target_dependencies t =
          map (\<lambda>fw. no_dependency\<lparr>sdk := Some (fw @ ''.framework'')\<rparr>)
            (arrayize (frameworks podspec)) @ filter_Boolean resolved"
    by blast
  have "map resolver ?names = map Inr resolved" using r by (rule mapAsync_results)
  then have "map (\<lambda>d. Inr (Some d)) (filter_Boolean resolved)
               = filter (\<lambda>r. r \<noteq> Inr None) (map resolver ?names)"
    by (simp only: filter_Boolean_wrapped)
  then show ?thesis using s t d by blast
qed

text \<open>The resolver of the examples returns nothing for \<open>Z\<close> and a descriptor for \<open>Y\<close>:
  the list has the SDK entry and that one descriptor.\<close>

theorem resolved_dependencies_in_order_witness:
  "\<exists>spec t. createSpecFromPodspecAsync example_env example_podspec example_resolver = Inr spec
     \<and> targets spec = [(''EXLocation'', t)]
     \<and> example_resolver ''Z'' = Inr None
     \<and> example_resolver ''Y'' = Inr (Some example_descriptor)
     \<and> target_dependencies t =
          [no_dependency\<lparr>sdk := Some ''CoreLocation.framework''\<rparr>, example_descriptor]"
proof -
  have n: "\<forall>n \<in> set (case dependencies example_podspec of Some d \<Rightarrow> map fst d | None \<Rightarrow> []).
             \<exists>r. example_resolver n = Inr r"
    by (simp add: example_resolver_def)
  have m: "semver_major example_env (version example_podspec) = Some 1"
    by (simp add: example_podspec_def example_env_def is_digit_def less_eq_char_def)
  from resolved_dependencies_in_order [OF n m] obtain spec t ds where
    s: "createSpecFromPodspecAsync example_env example_podspec example_resolver = Inr spec"
    and t: "targets spec = [(name example_podspec, t)]"
    and d: "target_dependencies t =
          map (\<lambda>fw. no_dependency\<lparr>sdk := Some (fw @ ''.framework'')\<rparr>)
            (arrayize (frameworks example_podspec)) @ ds"
    and f: "map (\<lambda>d. Inr (Some d)) ds =
          filter (\<lambda>r. r \<noteq> Inr None)
            (map example_resolver
               (case dependencies example_podspec of Some d \<Rightarrow> map fst d | None \<Rightarrow> []))"
    by blast
  have "map (\<lambda>d. Inr (Some d) :: error + ProjectSpecDependency option) ds
          = [Inr (Some example_descriptor)]"
    using f by (simp add: example_podspec_def example_resolver_def)
  then have ds: "ds = [example_descriptor]" by auto
  have z: "example_resolver ''Z'' = Inr None" by (simp add: example_resolver_def)
  have y: "example_resolver ''Y'' = Inr (Some example_descriptor)"
    by (simp add: example_resolver_def)
  have "target_dependencies t =
          [no_dependency\<lparr>sdk := Some ''CoreLocation.framework''\<rparr>, example_descriptor]"
    using d ds by (simp add: example_podspec_def)
  moreover have "targets spec = [(''EXLocation'', t)]"
    using t by (simp add: example_podspec_def)
  ultimately show ?thesis using s z y by blast
qed




subsection \<open>Header search paths\<close>

text \<open>
  A set built from a list holds each element once, in the order of first insertion. The
  search path starts and ends with a character that is not white space, so \<open>trim\<close>
  leaves it as it is.
\<close>

lemma new_Set_fold:
  assumes "distinct acc"
  shows "distinct (fold (\<lambda>x acc. if x \<in> set acc then acc else acc @ [x]) xs acc)
     \<and> set (fold (\<lambda>x acc. if x \<in> set acc then acc else acc @ [x]) xs acc) = set acc \<union> set xs
     \<and> (\<exists>rest. fold (\<lambda>x acc. if x \<in> set acc then acc else acc @ [x]) xs acc = acc @ rest)"
  using assms
proof (induction xs arbitrary: acc)
  case Nil
  then show ?case by simp
next
  case (Cons x xs)
  show ?case
  proof (cases "x \<in> set acc")
    case True
    then show ?thesis using Cons.IH [OF Cons.prems] by auto
  next
    case False
    then have "distinct (acc @ [x])" using Cons.prems by simp
    from Cons.IH [OF this] show ?thesis using False by auto
  qed
qed

lemma new_Set_props:
  "distinct (new_Set xs) \<and> set (new_Set xs) = set xs"
  using new_Set_fold [of "[]" xs] by (simp add: new_Set_def)

lemma new_Set_first: "\<exists>rest. new_Set (x # xs) = x # rest"
  using new_Set_fold [of "[x]" xs] by (simp add: new_Set_def)

lemma join_last:
  "xs \<noteq> [] \<Longrightarrow> last xs \<noteq> [] \<Longrightarrow> join sep xs \<noteq> [] \<and> last (join sep xs) = last (last xs)"
  by (induction sep xs rule: join.induct) auto

lemma trim_id:
  assumes "s \<noteq> []" and "\<not> is_space (hd s)" and "\<not> is_space (last s)"
  shows "trim s = s"
proof -
  have 1: "dropWhile is_space s = s" using assms(1,2) by (cases s) auto
  have r: "rev s = last s # rev (butlast s)" using assms(1) by (simp add: rev_eq_Cons_iff)
  have "dropWhile is_space (last s # rev (butlast s)) = last s # rev (butlast s)"
    using assms(3) by simp
  then have 2: "dropWhile is_space (rev s) = rev s" by (simp only: r)
  show ?thesis by (simp add: trim_def 1 2)
qed

lemma constructHeaderSearchPaths_untrimmed:
  "constructHeaderSearchPaths env deps =
     ''$(inherited) '' @ join '' '' (map (quoted_header_dir env) (podsToSearchForHeaders deps))"
proof -
  let ?pods = "podsToSearchForHeaders deps"
  let ?dirs = "map (quoted_header_dir env) ?pods"
  obtain rest where "?pods = [] # rest"
    using new_Set_first [of "[]"] by (auto simp: podsToSearchForHeaders_def)
  then have ne: "?dirs \<noteq> []" by simp
  have "last ?dirs = quoted_header_dir env (last ?pods)" using ne by (simp add: last_map)
  then have l: "last ?dirs \<noteq> [] \<and> last (last ?dirs) = CHR 0x22"
    by (simp add: quoted_header_dir_def)
  then have j: "join '' '' ?dirs \<noteq> [] \<and> last (join '' '' ?dirs) = CHR 0x22"
    using join_last [OF ne, of "'' ''"] by simp
  let ?s = "''$(inherited) '' @ join '' '' ?dirs"
  have "trim ?s = ?s"
  proof (rule trim_id)
    show "?s \<noteq> []" by simp
    show "\<not> is_space (hd ?s)" by (simp add: is_space_def)
    show "\<not> is_space (last ?s)" using j by (simp add: is_space_def)
  qed
  then show ?thesis by (simp only: constructHeaderSearchPaths_def)
qed

text \<open>
  Claim C6 counts eight fixed library names. The source lists nine (\<open>DoubleConversion\<close>,
  \<open>React-callinvoker\<close>, \<open>React-Core\<close>, \<open>React-cxxreact\<close>, \<open>React-jsi\<close>,
  \<open>React-jsiexecutor\<close>, \<open>React-jsinspector\<close>, \<open>Yoga\<close>, \<open>glog\<close>): with no dependency
  the set has ten elements, not nine.
\<close>

theorem header_search_pods_counterexample:
  "card (set (podsToSearchForHeaders [])) = 1 + 9
   \<and> card (set (podsToSearchForHeaders [])) \<noteq> 1 + 8"
proof -
  have "podsToSearchForHeaders [] =
     [[], ''DoubleConversion'', ''React-callinvoker'', ''React-Core'', ''React-cxxreact'',
      ''React-jsi'', ''React-jsiexecutor'', ''React-jsinspector'', ''Yoga'', ''glog'']"
    by (simp add: podsToSearchForHeaders_def new_Set_def)
  then show ?thesis by simp
qed

text \<open>
  Claim C6, amended. For every list of dependency names, the header search path is
  \<open>$(inherited)\<close>, a space, and the double-quoted paths, joined by spaces, that
  \<open>path.join\<close> makes from the public headers directory and each name of a set: the
  empty name first (the directory itself), the dependency names and nine fixed library
  names, each name once.
\<close>

theorem header_search_paths:
  "constructHeaderSearchPaths env deps =
     ''$(inherited) '' @ join '' '' (map (quoted_header_dir env) (podsToSearchForHeaders deps))
   \<and> startsWith (constructHeaderSearchPaths env deps) ''$(inherited) ''
   \<and> (\<exists>rest. podsToSearchForHeaders deps = [] # rest)
   \<and> distinct (podsToSearchForHeaders deps)
   \<and> set (podsToSearchForHeaders deps) =
       {[]} \<union> set deps \<union>
       {''DoubleConversion'', ''React-callinvoker'', ''React-Core'', ''React-cxxreact'',
        ''React-jsi'', ''React-jsiexecutor'', ''React-jsinspector'', ''Yoga'', ''glog''}"
proof -
  have a: "constructHeaderSearchPaths env deps =
     ''$(inherited) '' @ join '' '' (map (quoted_header_dir env) (podsToSearchForHeaders deps))"
    by (rule constructHeaderSearchPaths_untrimmed)
  have b: "startsWith (constructHeaderSearchPaths env deps) ''$(inherited) ''"
    by (simp only: a) (simp add: startsWith_def)
  have c: "\<exists>rest. podsToSearchForHeaders deps = [] # rest"
    using new_Set_first [of "[]"] by (auto simp: podsToSearchForHeaders_def)
  have d: "distinct (podsToSearchForHeaders deps)"
    by (simp only: podsToSearchForHeaders_def new_Set_props)
  have e: "set (podsToSearchForHeaders deps) =
       {[]} \<union> set deps \<union>
       {''DoubleConversion'', ''React-callinvoker'', ''React-Core'', ''React-cxxreact'',
        ''React-jsi'', ''React-jsiexecutor'', ''React-jsinspector'', ''Yoga'', ''glog''}"
    by (simp only: podsToSearchForHeaders_def new_Set_props) auto
  show ?thesis using a b c d e by blast
qed

theorem header_search_paths_witness:
  "constructHeaderSearchPaths example_env [''Yoga'', ''EXFoo'', ''Yoga''] =
     ''$(inherited) '' @ join '' ''
        (map (\<lambda>p. [CHR 0x22] @ ''/expo/ios/Pods/Headers/Public'' @ p @ [CHR 0x22])
          [[], ''/Yoga'', ''/EXFoo'', ''/DoubleConversion'', ''/React-callinvoker'', ''/React-Core'',
           ''/React-cxxreact'', ''/React-jsi'', ''/React-jsiexecutor'', ''/React-jsinspector'',
           ''/glog''])"
proof -
  have p: "podsToSearchForHeaders [''Yoga'', ''EXFoo'', ''Yoga''] =
     [[], ''Yoga'', ''EXFoo'', ''DoubleConversion'', ''React-callinvoker'', ''React-Core'',
      ''React-cxxreact'', ''React-jsi'', ''React-jsiexecutor'', ''React-jsinspector'', ''glog'']"
    by (simp add: podsToSearchForHeaders_def new_Set_def)
  have q: "quoted_header_dir example_env n =
       [CHR 0x22] @ ''/expo/ios/Pods/Headers/Public'' @ (if n = [] then [] else ''/'' @ n) @ [CHR 0x22]"
    for n
    by (simp add: quoted_header_dir_def PODS_PUBLIC_HEADERS_DIR_def PODS_DIR_def example_env_def)
  from header_search_paths [of example_env "[''Yoga'', ''EXFoo'', ''Yoga'']"]
  have "constructHeaderSearchPaths example_env [''Yoga'', ''EXFoo'', ''Yoga''] =
     ''$(inherited) '' @ join '' '' (map (quoted_header_dir example_env)
        (podsToSearchForHeaders [''Yoga'', ''EXFoo'', ''Yoga'']))"
    by blast
  then show ?thesis by (simp only: p) (simp add: q)
qed

section \<open>Running the generator: the specification file\<close>

text \<open>
  Claim C7. \<open>generateXcodeProjectAsync\<close> writes the serialized specification to
  \<open><dir>/<name>.spec.json\<close> before it runs the generator. When the generator ends well,
  it removes that file and returns \<open><dir>/<name>.xcodeproj\<close>, whatever the generator left
  in the file system. When the generator fails, it fails with the generator's error and
  the file system is as the generator left it: the specification file is not removed.
\<close>

theorem generate_removes_spec_on_success_only:
  assumes "specPath = path_join env [dir, spec_name spec @ ''.spec.json'']"
    and "spawnAsync proc ''yarn''
           [''--silent'', ''run'', ''xcodegen'', ''--quiet'', ''--spec'', specPath]
           (EXPOTOOLS_DIR env) (fs(specPath \<mapsto> stringify proc spec)) = (failure, fs2)"
  shows "(failure = None \<longrightarrow>
            generateXcodeProjectAsync env proc dir spec fs =
              (Inr (path_join env [dir, spec_name spec @ ''.xcodeproj'']), fs2(specPath := None))
            \<and> snd (generateXcodeProjectAsync env proc dir spec fs) specPath = None)
       \<and> (\<forall>e. failure = Some e \<longrightarrow>
            generateXcodeProjectAsync env proc dir spec fs = (Inl e, fs2)
            \<and> snd (generateXcodeProjectAsync env proc dir spec fs) specPath = fs2 specPath)"
  using assms by (simp add: generateXcodeProjectAsync_def Let_def)

theorem generate_removes_spec_on_success_only_witness:
  "fst (generateXcodeProjectAsync example_env idle_process ''/out'' example_spec Map.empty)
     = Inr ''/out/EXLocation.xcodeproj''
   \<and> snd (generateXcodeProjectAsync example_env idle_process ''/out'' example_spec Map.empty)
       ''/out/EXLocation.xcodeproj'' = None
   \<and> snd (generateXcodeProjectAsync example_env idle_process ''/out'' example_spec Map.empty)
       ''/out/EXLocation.spec.json'' = None
   \<and> fst (generateXcodeProjectAsync example_env failing_process ''/out'' example_spec Map.empty)
       = Inl (SpawnError ''yarn'')
   \<and> snd (generateXcodeProjectAsync example_env failing_process ''/out'' example_spec Map.empty)
       ''/out/EXLocation.spec.json'' = Some ''{}''"
proof -
  have p: "''/out/EXLocation.spec.json''
             = path_join example_env [''/out'', spec_name example_spec @ ''.spec.json'']"
    by (simp add: example_env_def example_spec_def)
  have x: "path_join example_env [''/out'', spec_name example_spec @ ''.xcodeproj'']
             = ''/out/EXLocation.xcodeproj''"
    by (simp add: example_env_def example_spec_def)
  have ok: "spawnAsync idle_process ''yarn''
           [''--silent'', ''run'', ''xcodegen'', ''--quiet'', ''--spec'', ''/out/EXLocation.spec.json'']
           (EXPOTOOLS_DIR example_env)
           (Map.empty(''/out/EXLocation.spec.json'' \<mapsto> stringify idle_process example_spec))
         = (None, Map.empty(''/out/EXLocation.spec.json'' \<mapsto> ''{}''))"
    by (simp add: idle_process_def)
  have bad: "spawnAsync failing_process ''yarn''
           [''--silent'', ''run'', ''xcodegen'', ''--quiet'', ''--spec'', ''/out/EXLocation.spec.json'']
           (EXPOTOOLS_DIR example_env)
           (Map.empty(''/out/EXLocation.spec.json'' \<mapsto> stringify failing_process example_spec))
         = (Some (SpawnError ''yarn''), Map.empty(''/out/EXLocation.spec.json'' \<mapsto> ''{}''))"
    by (simp add: failing_process_def)
  from generate_removes_spec_on_success_only [OF p ok]
  have 1: "generateXcodeProjectAsync example_env idle_process ''/out'' example_spec Map.empty =
             (Inr ''/out/EXLocation.xcodeproj'',
              (Map.empty(''/out/EXLocation.spec.json'' \<mapsto> ''{}''))
                (''/out/EXLocation.spec.json'' := None))"
    by (simp add: x)
  from generate_removes_spec_on_success_only [OF p bad]
  have 2: "generateXcodeProjectAsync example_env failing_process ''/out'' example_spec Map.empty =
             (Inl (SpawnError ''yarn''), Map.empty(''/out/EXLocation.spec.json'' \<mapsto> ''{}''))"
    by simp
  show ?thesis by (simp only: 1 2) simp
qed

section \<open>The tasks: what they log and call\<close>

lemma prebuild_loop_all_succeed:
  assumes "\<forall>p \<in> set (filter (canPrebuildPackage pb) (map pkg parcels)).
             prebuildPackageAsync pb p = None"
  shows "prebuild_loop pb parcels =
           (concat (map (\<lambda>p. [InfoPrebuilding (packageName pb p), PrebuildPackage p True])
                     (filter (canPrebuildPackage pb) (map pkg parcels))), None)"
  using assms by (induction parcels) auto

text \<open>
  In general the prebuild task stops at the first call that fails: the packages it logs
  and prebuilds are those that satisfy the predicate, up to and including the first one
  whose prebuild fails.
\<close>

lemma prebuild_loop_events:
  "fst (prebuild_loop pb parcels) =
     concat (map (\<lambda>p. [InfoPrebuilding (packageName pb p), PrebuildPackage p True])
       (take (Suc (length (takeWhile (\<lambda>p. prebuildPackageAsync pb p = None)
                            (filter (canPrebuildPackage pb) (map pkg parcels)))))
          (filter (canPrebuildPackage pb) (map pkg parcels))))"
proof (induction parcels)
  case Nil
  show ?case by simp
next
  case (Cons parcel parcels)
  show ?case
  proof (cases "canPrebuildPackage pb (pkg parcel)")
    case False
    then show ?thesis using Cons.IH by simp
  next
    case True
    show ?thesis
    proof (cases "prebuildPackageAsync pb (pkg parcel)")
      case (Some e)
      then show ?thesis using True by simp
    next
      case None
      then show ?thesis using True Cons.IH by (cases "prebuild_loop pb parcels") simp
    qed
  qed
qed

text \<open>
  Claim C9 calls the clean task a no-op when no package can be prebuilt. It then calls
  nothing and logs no message, but it still logs the blank line that it logs first in
  every run.
\<close>

theorem clean_task_counterexample:
  "filter (canPrebuildPackage example_prebuilder) (map pkg [\<lparr>pkg = ''unimodules-b''\<rparr>]) = []
   \<and> cleanPrebuilds example_prebuilder [\<lparr>pkg = ''unimodules-b''\<rparr>] = ([LogBlank], None)"
  by (simp add: cleanPrebuilds_def example_prebuilder_def startsWith_def)

text \<open>
  Claim C9, amended. For every list of parcels, the clean task logs a blank line; then,
  when some package satisfies \<open>canPrebuildPackage\<close>, it logs one message and calls
  \<open>cleanFrameworksAsync\<close> once, with exactly the packages that satisfy the predicate, in
  input order; when none does, it does nothing more. The prebuild task logs a blank line
  and then logs one line and calls \<open>prebuildPackageAsync\<close> once for each package that
  satisfies the predicate, one after the other in input order, as far as the first call
  that fails: for all of them when no call fails.
\<close>

theorem tasks_call_prebuilder:
  "fst (cleanPrebuilds pb parcels) =
     (if filter (canPrebuildPackage pb) (map pkg parcels) = [] then [LogBlank]
      else [LogBlank, InfoCleaning,
            CleanFrameworks (filter (canPrebuildPackage pb) (map pkg parcels))])
   \<and> fst (prebuildPackages pb parcels) =
       LogBlank #
         concat (map (\<lambda>p. [InfoPrebuilding (packageName pb p), PrebuildPackage p True])
           (take (Suc (length (takeWhile (\<lambda>p. prebuildPackageAsync pb p = None)
                                (filter (canPrebuildPackage pb) (map pkg parcels)))))
              (filter (canPrebuildPackage pb) (map pkg parcels))))
   \<and> ((\<forall>p \<in> set (filter (canPrebuildPackage pb) (map pkg parcels)).
          prebuildPackageAsync pb p = None)
        \<longrightarrow> prebuildPackages pb parcels =
              (LogBlank #
                 concat (map (\<lambda>p. [InfoPrebuilding (packageName pb p), PrebuildPackage p True])
                           (filter (canPrebuildPackage pb) (map pkg parcels))),
               None))"
proof -
  have g: "fst (prebuildPackages pb parcels) =
       LogBlank #
         concat (map (\<lambda>p. [InfoPrebuilding (packageName pb p), PrebuildPackage p True])
           (take (Suc (length (takeWhile (\<lambda>p. prebuildPackageAsync pb p = None)
                                (filter (canPrebuildPackage pb) (map pkg parcels)))))
              (filter (canPrebuildPackage pb) (map pkg parcels))))"
    using prebuild_loop_events [of pb parcels]
    by (cases "prebuild_loop pb parcels") (simp add: prebuildPackages_def)
  have c: "fst (cleanPrebuilds pb parcels) =
     (if filter (canPrebuildPackage pb) (map pkg parcels) = [] then [LogBlank]
      else [LogBlank, InfoCleaning,
            CleanFrameworks (filter (canPrebuildPackage pb) (map pkg parcels))])"
    by (simp add: cleanPrebuilds_def Let_def)
  have p: "prebuildPackages pb parcels =
              (LogBlank #
                 concat (map (\<lambda>p. [InfoPrebuilding (packageName pb p), PrebuildPackage p True])
                           (filter (canPrebuildPackage pb) (map pkg parcels))),
               None)"
    if "\<forall>p \<in> set (filter (canPrebuildPackage pb) (map pkg parcels)).
          prebuildPackageAsync pb p = None"
    using prebuild_loop_all_succeed [OF that] by (simp add: prebuildPackages_def)
  show ?thesis using c g p by blast
qed

theorem tasks_call_prebuilder_witness:
  "cleanPrebuilds example_prebuilder example_parcels
     = ([LogBlank, InfoCleaning, CleanFrameworks [''expo-a'', ''expo-c'']], None)
   \<and> fst (cleanPrebuilds example_prebuilder [\<lparr>pkg = ''unimodules-b''\<rparr>]) = [LogBlank]
   \<and> prebuildPackages example_prebuilder example_parcels
     = ([LogBlank, InfoPrebuilding ''expo-a'', PrebuildPackage ''expo-a'' True,
         InfoPrebuilding ''expo-c'', PrebuildPackage ''expo-c'' True], None)"
proof -
  have f: "filter (canPrebuildPackage example_prebuilder) (map pkg example_parcels)
             = [''expo-a'', ''expo-c'']"
    by (simp add: example_prebuilder_def example_parcels_def startsWith_def)
  have g: "filter (canPrebuildPackage example_prebuilder) (map pkg [\<lparr>pkg = ''unimodules-b''\<rparr>]) = []"
    by (simp add: example_prebuilder_def startsWith_def)
  have a: "\<forall>p \<in> set (filter (canPrebuildPackage example_prebuilder) (map pkg example_parcels)).
          prebuildPackageAsync example_prebuilder p = None"
    by (simp add: example_prebuilder_def)
  have 1: "fst (cleanPrebuilds example_prebuilder example_parcels)
             = [LogBlank, InfoCleaning, CleanFrameworks [''expo-a'', ''expo-c'']]"
    using tasks_call_prebuilder [of example_prebuilder example_parcels] by (simp add: f)
  have 2: "snd (cleanPrebuilds example_prebuilder example_parcels) = None"
    by (simp add: cleanPrebuilds_def Let_def example_prebuilder_def)
  have 3: "fst (cleanPrebuilds example_prebuilder [\<lparr>pkg = ''unimodules-b''\<rparr>]) = [LogBlank]"
    using tasks_call_prebuilder [of example_prebuilder "[\<lparr>pkg = ''unimodules-b''\<rparr>]"]
    by (simp only: g) simp
  have 4: "prebuildPackages example_prebuilder example_parcels
     = ([LogBlank, InfoPrebuilding ''expo-a'', PrebuildPackage ''expo-a'' True,
         InfoPrebuilding ''expo-c'', PrebuildPackage ''expo-c'' True], None)"
  proof -
    from tasks_call_prebuilder [of example_prebuilder example_parcels] a
    have "prebuildPackages example_prebuilder example_parcels =
              (LogBlank #
                 concat (map (\<lambda>p. [InfoPrebuilding (packageName example_prebuilder p),
                                   PrebuildPackage p True])
                           (filter (canPrebuildPackage example_prebuilder)
                              (map pkg example_parcels))),
               None)"
      by blast
    then show ?thesis by (simp only: f) (simp add: example_prebuilder_def)
  qed
  show ?thesis using 1 2 3 4 by (simp add: prod_eq_iff)
qed

end
